theory Spec2Isabelle
  imports Main
begin

section \<open>ECMAScript string primitives used by the patch engine\<close>

text \<open>
  The route handler works on JavaScript strings, which are finite sequences of code
  units. They are modelled as \<open>string\<close> (a list of characters); every primitive below
  follows the algorithm of the ECMAScript specification for a string (not a regular
  expression) argument. A search that finds nothing returns \<open>None\<close> where JavaScript
  returns the number \<open>-1\<close>.
\<close>

definition startsWith :: "string \<Rightarrow> string \<Rightarrow> bool" where
  "startsWith s pat = (take (length pat) s = pat)"

text \<open>\<open>s.indexOf(pat)\<close>: the smallest offset at which \<open>pat\<close> starts in \<open>s\<close>.\<close>

fun indexOf :: "string \<Rightarrow> string \<Rightarrow> nat option" where
  "indexOf [] pat = (if pat = [] then Some 0 else None)"
| "indexOf (c # s) pat =
     (if startsWith (c # s) pat then Some 0 else map_option Suc (indexOf s pat))"

text \<open>\<open>s.includes(pat)\<close>.\<close>

definition includes_str :: "string \<Rightarrow> string \<Rightarrow> bool" where
  "includes_str s pat = (indexOf s pat \<noteq> None)"

lemma indexOf_bound:
  "indexOf s pat = Some j \<Longrightarrow> j + length pat \<le> length s"
proof (induction s arbitrary: j)
  case Nil
  then show ?case by (simp split: if_splits)
next
  case (Cons c s)
  show ?case
  proof (cases "startsWith (c # s) pat")
    case True
    then have "take (length pat) (c # s) = pat"
      by (simp add: startsWith_def)
    from arg_cong [OF this, of length] have "length pat \<le> length (c # s)"
      by simp
    with True Cons.prems show ?thesis by simp
  next
    case False
    with Cons.prems obtain k where k: "indexOf s pat = Some k" "j = Suc k"
      by auto
    from Cons.IH [OF k(1)] k(2) show ?thesis by simp
  qed
qed

text \<open>
  The loop of \<open>s.split(sep)\<close> for a non-empty separator: cut at the first match, skip
  the separator, continue in the rest. Matches are therefore counted from left to right
  without overlap.
\<close>

function split_loop :: "string \<Rightarrow> string \<Rightarrow> string list" where
  "split_loop s sep =
     (if sep = [] then [s]
      else case indexOf s sep of
             None \<Rightarrow> [s]
           | Some j \<Rightarrow> take j s # split_loop (drop (j + length sep) s) sep)"
  by pat_completeness auto
termination
proof (relation "measure (\<lambda>(s, sep). length s)")
  show "wf (measure (\<lambda>(s, sep). length s))" by simp
next
  fix s sep :: string and j :: nat
  assume "sep \<noteq> []" and "indexOf s sep = Some j"
  then have "j + length sep \<le> length s" and "0 < length sep"
    by (simp_all add: indexOf_bound)
  then have "length s - (j + length sep) < length s"
    by arith
  then show "((drop (j + length sep) s, sep), (s, sep)) \<in> measure (\<lambda>(s, sep). length s)"
    by simp
qed

declare split_loop.simps [simp del]

text \<open>
  \<open>s.split(sep)\<close> with no limit: an empty separator yields the code units of \<open>s\<close> one by
  one (none for the empty string); an empty \<open>s\<close> with a non-empty separator yields the
  one-element list holding \<open>s\<close>.
\<close>

definition split :: "string \<Rightarrow> string \<Rightarrow> string list" where
  "split s sep =
     (if sep = [] then map (\<lambda>c. [c]) s
      else if s = [] then [[]]
      else split_loop s sep)"

text \<open>
  \<open>GetSubstitution\<close> for a string pattern: there are no captures and no named groups,
  so \<open>$$\<close> yields a dollar sign, \<open>$`\<close> the text before the match, \<open>$&\<close> the match,
  \<open>$'\<close> the text after the match, and every other code unit of the template (also a
  dollar sign followed by digits or by \<open><\<close>) is copied as it is.
\<close>

fun getSubstitution :: "string \<Rightarrow> string \<Rightarrow> nat \<Rightarrow> string \<Rightarrow> string" where
  "getSubstitution matched str position [] = []"
| "getSubstitution matched str position [c] = [c]"
| "getSubstitution matched str position (c # d # rest) =
     (if c = CHR ''$'' \<and> d = CHR ''$'' then
        CHR ''$'' # getSubstitution matched str position rest
      else if c = CHR ''$'' \<and> d = CHR 0x60 then
        take position str @ getSubstitution matched str position rest
      else if c = CHR ''$'' \<and> d = CHR ''&'' then
        matched @ getSubstitution matched str position rest
      else if c = CHR ''$'' \<and> d = CHR 0x27 then
        drop (min (position + length matched) (length str)) str
          @ getSubstitution matched str position rest
      else c # getSubstitution matched str position (d # rest))"

text \<open>
  \<open>s.replace(searchString, replaceValue)\<close> with two strings: only the first match is
  replaced, and the replacement is the expansion of \<open>replaceValue\<close> as a template.
\<close>

definition replace :: "string \<Rightarrow> string \<Rightarrow> string \<Rightarrow> string" where
  "replace s searchString replaceValue =
     (case indexOf s searchString of
        None \<Rightarrow> s
      | Some position \<Rightarrow>
          take position s
            @ getSubstitution searchString s position replaceValue
            @ drop (position + length searchString) s)"

section \<open>PatchEngine: \<open>getLineNumber\<close> and \<open>applyEdits\<close>\<close>

record EditOperation =
  description :: string
  old_string :: string
  new_string :: string
  lineNumber :: "int option"

text \<open>
  \<open>getLineNumber\<close> returns \<open>-1\<close> when the string is absent, else the number of pieces
  that the text before the match splits into at line feeds.
\<close>

definition getLineNumber :: "string \<Rightarrow> string \<Rightarrow> int" where
  "getLineNumber code searchString =
     (case indexOf code searchString of
        None \<Rightarrow> - 1
      | Some index \<Rightarrow> int (length (split (take index code) [CHR 0x0A])))"

text \<open>
  The two error messages of \<open>applyEdits\<close> are template strings over the 1-based number
  of the edit and the number of matches. The model keeps the numbers (\<open>EditError\<close>) and
  renders the text with \<open>error_text\<close>.
\<close>

datatype EditError =
  NotFound nat
| Ambiguous nat int

fun decimal :: "nat \<Rightarrow> string" where
  "decimal n =
     (if n < 10 then [char_of (48 + n)]
      else decimal (n div 10) @ [char_of (48 + n mod 10)])"

declare decimal.simps [simp del]

fun error_text :: "EditError \<Rightarrow> string" where
  "error_text (NotFound i) =
     ''Edit '' @ decimal i @ '' failed: Could not find the specified text''"
| "error_text (Ambiguous i matches) =
     ''Edit '' @ decimal i @ '' failed: Found '' @ decimal (nat matches)
       @ '' matches. The edit target is ambiguous.''"

record ApplyEditsResult =
  success :: bool
  result :: string
  error :: "EditError option"
  enrichedEdits :: "EditOperation list option"
  failedEdit :: "EditOperation option"

text \<open>
  The \<open>for\<close> loop of \<open>applyEdits\<close>: \<open>i\<close> is the 0-based loop counter, \<open>cur\<close> the local
  variable \<open>result\<close>, \<open>enriched\<close> the list \<open>enrichedEdits\<close> built so far. Both failure
  exits return the parameter \<open>code\<close>, not \<open>cur\<close>.
\<close>

fun applyEdits_loop ::
  "string \<Rightarrow> nat \<Rightarrow> EditOperation list \<Rightarrow> string \<Rightarrow> EditOperation list \<Rightarrow> ApplyEditsResult"
where
  "applyEdits_loop code i [] cur enriched =
     \<lparr>success = True, result = cur, error = None,
      enrichedEdits = Some enriched, failedEdit = None\<rparr>"
| "applyEdits_loop code i (edit # rest) cur enriched =
     (if \<not> includes_str cur (old_string edit) then
        \<lparr>success = False, result = code, error = Some (NotFound (i + 1)),
         enrichedEdits = None, failedEdit = Some edit\<rparr>
      else
        let matches = int (length (split cur (old_string edit))) - 1 in
        if matches > 1 then
          \<lparr>success = False, result = code, error = Some (Ambiguous (i + 1) matches),
           enrichedEdits = None, failedEdit = Some edit\<rparr>
        else
          let line = getLineNumber cur (old_string edit);
              cur' = replace cur (old_string edit) (new_string edit)
          in applyEdits_loop code (i + 1) rest cur'
               (enriched @ [\<lparr>description = description edit,
                              old_string = old_string edit,
                              new_string = new_string edit,
                              lineNumber = Some line\<rparr>]))"

definition applyEdits :: "string \<Rightarrow> EditOperation list \<Rightarrow> ApplyEditsResult" where
  "applyEdits code edits = applyEdits_loop code 0 edits code []"

text \<open>An edit as the generation collaborator sends it: no line number yet.\<close>

definition mk_edit :: "string \<Rightarrow> string \<Rightarrow> string \<Rightarrow> EditOperation" where
  "mk_edit d old new =
     \<lparr>description = d, old_string = old, new_string = new, lineNumber = None\<rparr>"

section \<open>SnapshotStore: the hook \<open>useSessionHistory\<close>\<close>

text \<open>
  A row of the table \<open>code_snapshots\<close>. The columns \<open>prompt\<close>, \<open>summary\<close> and
  \<open>skills\<close> are nullable; \<open>created_at\<close> is kept as the time value it denotes.
\<close>

record CodeSnapshot =
  snap_id :: string
  snap_session_id :: string
  snap_code :: string
  snap_prompt :: "string option"
  snap_summary :: "string option"
  snap_skills :: "string list option"
  snap_sequence_number :: int
  snap_created_at :: nat

text \<open>
  The state of the hook. Every callback writes a state variable and the ref that mirrors
  it in the same step, so one field stands for both.
\<close>

record History =
  snapshots :: "CodeSnapshot list"
  currentIndex :: int
  isLoaded :: bool

definition initialHistory :: History where
  "initialHistory = \<lparr>snapshots = [], currentIndex = - 1, isLoaded = False\<rparr>"

text \<open>
  \<open>xs.slice(start, fin)\<close> and \<open>xs.slice(start)\<close>: a negative bound counts from the end
  of the array, and both bounds are clamped to the array.
\<close>

definition slice :: "'a list \<Rightarrow> int \<Rightarrow> int \<Rightarrow> 'a list" where
  "slice xs start fin =
     (let len = int (length xs);
          k = (if start < 0 then max (len + start) 0 else min start len);
          final = (if fin < 0 then max (len + fin) 0 else min fin len)
      in take (nat (final - k)) (drop (nat k) xs))"

definition slice_from :: "'a list \<Rightarrow> int \<Rightarrow> 'a list" where
  "slice_from xs start = slice xs start (int (length xs))"

text \<open>\<open>xs[i]\<close>: \<open>undefined\<close> (here \<open>None\<close>) outside the array.\<close>

definition at_index :: "'a list \<Rightarrow> int \<Rightarrow> 'a option" where
  "at_index xs i = (if 0 \<le> i \<and> i < int (length xs) then Some (xs ! nat i) else None)"

text \<open>
  \<open>loadSnapshots\<close>: the reply of the select is \<open>None\<close> for an error or missing data,
  else the rows in ascending order of \<open>sequence_number\<close>. With no row the snapshot list
  is replaced by the empty list and the cursor is not written.
\<close>

definition loadSnapshots :: "History \<Rightarrow> CodeSnapshot list option \<Rightarrow> History" where
  "loadSnapshots h reply =
     (case reply of
        None \<Rightarrow> h\<lparr>isLoaded := True\<rparr>
      | Some data \<Rightarrow>
          let h1 = h\<lparr>snapshots := data\<rparr>;
              lastIdx = int (length data) - 1;
              h2 = (if lastIdx \<ge> 0 then h1\<lparr>currentIndex := lastIdx\<rparr> else h1)
          in h2\<lparr>isLoaded := True\<rparr>)"

text \<open>
  The reply of the insert: an error (or no data), or the stored row. The store assigns
  the identifier and the creation time; the other columns of the returned row are the
  inserted ones.
\<close>

datatype InsertReply =
  InsertError
| Inserted string nat

text \<open>
  \<open>saveSnapshot\<close> returns the new state and the identifiers it asks the store to
  delete (none when the cursor is at the last snapshot).
\<close>

definition saveSnapshot ::
  "string \<Rightarrow> History \<Rightarrow> string \<Rightarrow> string \<Rightarrow> string \<Rightarrow> string list \<Rightarrow> InsertReply
     \<Rightarrow> History \<times> string list"
where
  "saveSnapshot sessionId h code prompt summary skills reply =
     (let current = snapshots h;
          idx = currentIndex h;
          activeSnapshots = slice current 0 (idx + 1);
          sequenceNumber = int (length activeSnapshots)
      in case reply of
           InsertError \<Rightarrow> (h, [])
         | Inserted new_id created \<Rightarrow>
             let data = \<lparr>snap_id = new_id, snap_session_id = sessionId, snap_code = code,
                         snap_prompt = Some prompt, snap_summary = Some summary,
                         snap_skills = Some skills,
                         snap_sequence_number = sequenceNumber,
                         snap_created_at = created\<rparr>;
                 idsToDelete =
                   (if idx < int (length current) - 1
                    then map snap_id (slice_from current (idx + 1)) else []);
                 newSnapshots = activeSnapshots @ [data];
                 newIdx = int (length newSnapshots) - 1
             in (h\<lparr>snapshots := newSnapshots, currentIndex := newIdx\<rparr>, idsToDelete))"

text \<open>
  \<open>undo\<close> and \<open>redo\<close> return \<open>null\<close> (\<open>None\<close>) or the code of the snapshot at the new
  cursor. Reading \<open>.code\<close> of an array element that does not exist throws a
  \<open>TypeError\<close>; the cursor has been written by then, so the state is returned beside
  the outcome.
\<close>

datatype js_error = TypeError

definition undo :: "History \<Rightarrow> History \<times> (js_error + string option)" where
  "undo h =
     (let idx = currentIndex h in
      if idx \<le> 0 then (h, Inr None)
      else
        let newIdx = idx - 1;
            h' = h\<lparr>currentIndex := newIdx\<rparr>
        in (h', case at_index (snapshots h) newIdx of
                  None \<Rightarrow> Inl TypeError
                | Some s \<Rightarrow> Inr (Some (snap_code s))))"

definition redo :: "History \<Rightarrow> History \<times> (js_error + string option)" where
  "redo h =
     (let idx = currentIndex h;
          snaps = snapshots h
      in if idx \<ge> int (length snaps) - 1 then (h, Inr None)
         else
           let newIdx = idx + 1;
               h' = h\<lparr>currentIndex := newIdx\<rparr>
           in (h', case at_index snaps newIdx of
                     None \<Rightarrow> Inl TypeError
                   | Some s \<Rightarrow> Inr (Some (snap_code s))))"

definition canUndo :: "History \<Rightarrow> bool" where
  "canUndo h = (currentIndex h > 0)"

definition canRedo :: "History \<Rightarrow> bool" where
  "canRedo h = (currentIndex h < int (length (snapshots h)) - 1)"

text \<open>The operations of the store, with the replies of the remote store they consume.\<close>

datatype HistoryOp =
  Load "CodeSnapshot list option"
| Save string string string "string list" InsertReply
| Undo
| Redo

fun history_step :: "string \<Rightarrow> History \<Rightarrow> HistoryOp \<Rightarrow> History" where
  "history_step sid h (Load reply) = loadSnapshots h reply"
| "history_step sid h (Save code prompt summary skills reply) =
     fst (saveSnapshot sid h code prompt summary skills reply)"
| "history_step sid h Undo = fst (undo h)"
| "history_step sid h Redo = fst (redo h)"

definition history_run :: "string \<Rightarrow> History \<Rightarrow> HistoryOp list \<Rightarrow> History" where
  "history_run sid h ops = foldl (history_step sid) h ops"

text \<open>The cursor invariant of the data model: \<open>-1 \<le> currentIndex < length snapshots\<close>.\<close>

definition cursor_invariant :: "History \<Rightarrow> bool" where
  "cursor_invariant h =
     (- 1 \<le> currentIndex h \<and> currentIndex h < int (length (snapshots h)))"

subsection \<open>The hook \<open>useSupabaseHistory\<close>\<close>

text \<open>
  The second hook keeps the session identifier in its own state and creates the session
  on the first save. \<open>create_reply\<close> is the reply of that insert (\<open>None\<close> for an
  error); it is consulted only when no session exists yet. Session identifiers are the
  non-empty keys that the store generates, so the test \<open>!sid\<close> of the source is the
  test for a missing identifier.
\<close>

record SupabaseHistory = History +
  sessionId :: "string option"

definition supabase_saveSnapshot ::
  "SupabaseHistory \<Rightarrow> string \<Rightarrow> string \<Rightarrow> string \<Rightarrow> string list \<Rightarrow> string option
     \<Rightarrow> InsertReply \<Rightarrow> SupabaseHistory \<times> string list"
where
  "supabase_saveSnapshot h code prompt summary skills create_reply reply =
     (case (case sessionId h of
              Some sid \<Rightarrow> Some (sid, h)
            | None \<Rightarrow>
                (case create_reply of
                   None \<Rightarrow> None
                 | Some sid \<Rightarrow> Some (sid, h\<lparr>sessionId := Some sid\<rparr>))) of
        None \<Rightarrow> (h, [])
      | Some (sid, h0) \<Rightarrow>
          let current = snapshots h0;
              idx = currentIndex h0;
              activeSnapshots = slice current 0 (idx + 1);
              sequenceNumber = int (length activeSnapshots)
          in case reply of
               InsertError \<Rightarrow> (h0, [])
             | Inserted new_id created \<Rightarrow>
                 let data = \<lparr>snap_id = new_id, snap_session_id = sid, snap_code = code,
                             snap_prompt = Some prompt, snap_summary = Some summary,
                             snap_skills = Some skills,
                             snap_sequence_number = sequenceNumber,
                             snap_created_at = created\<rparr>;
                     idsToDelete =
                       (if idx < int (length current) - 1
                        then map snap_id (slice_from current (idx + 1)) else []);
                     newSnapshots = activeSnapshots @ [data];
                     newIdx = int (length newSnapshots) - 1
                 in (h0\<lparr>snapshots := newSnapshots, currentIndex := newIdx\<rparr>,
                     idsToDelete))"

definition supabase_undo :: "SupabaseHistory \<Rightarrow> SupabaseHistory \<times> (js_error + string option)"
where
  "supabase_undo h =
     (let idx = currentIndex h;
          snaps = snapshots h
      in if idx \<le> 0 then (h, Inr None)
         else
           let newIdx = idx - 1;
               h' = h\<lparr>currentIndex := newIdx\<rparr>
           in (h', case at_index snaps newIdx of
                     None \<Rightarrow> Inl TypeError
                   | Some s \<Rightarrow> Inr (Some (snap_code s))))"

text \<open>
  \<open>loadSnapshots\<close> of the second hook returns before it writes anything when the reply
  holds no row, and \<open>startNewSession\<close> resets the list and the cursor together. (The
  entry in the browser's local storage is not part of this state.)
\<close>

definition supabase_loadSnapshots ::
  "SupabaseHistory \<Rightarrow> string \<Rightarrow> CodeSnapshot list option \<Rightarrow> SupabaseHistory"
where
  "supabase_loadSnapshots h sid reply =
     (case reply of
        None \<Rightarrow> h\<lparr>isLoaded := True\<rparr>
      | Some data \<Rightarrow>
          if length data = 0 then h\<lparr>isLoaded := True\<rparr>
          else h\<lparr>sessionId := Some sid, snapshots := data,
                 currentIndex := int (length data) - 1, isLoaded := True\<rparr>)"

definition startNewSession :: "SupabaseHistory \<Rightarrow> SupabaseHistory" where
  "startNewSession h = h\<lparr>sessionId := None, snapshots := [], currentIndex := - 1\<rparr>"

section \<open>ConversationLedger: the hook \<open>useConversationState\<close>\<close>

datatype Role = User | Assistant | ErrorRole

datatype ErrorType = edit_failed | api | validation

datatype EditType = tool_edit | full_replacement

record AssistantMetadata =
  meta_skills :: "string list"
  meta_editType :: EditType
  meta_edits :: "EditOperation list option"

text \<open>
  A message of any role; the fields that a role does not carry are \<open>None\<close>
  (\<open>undefined\<close> in the source).
\<close>

record ConversationMessage =
  msg_id :: string
  msg_role :: Role
  msg_content :: string
  msg_timestamp :: nat
  msg_attachedImages :: "string list option"
  msg_codeSnapshot :: "string option"
  msg_metadata :: "AssistantMetadata option"
  msg_errorType :: "ErrorType option"
  msg_failedEdit :: "EditOperation option"

record PendingMessage =
  pending_skills :: "string list option"
  pending_startedAt :: nat

text \<open>
  The state of the hook: the reactive state and the ref \<open>lastAiCodeRef\<close>
  (\<open>lastAiCode\<close>), which tracks the code of the last AI generation.
\<close>

record Conversation =
  messages :: "ConversationMessage list"
  hasManualEdits :: bool
  lastGenerationTimestamp :: "nat option"
  pendingMessage :: "PendingMessage option"
  lastAiCode :: string

definition initialConversation :: Conversation where
  "initialConversation =
     \<lparr>messages = [], hasManualEdits = False, lastGenerationTimestamp = None,
      pendingMessage = None, lastAiCode = []\<rparr>"

text \<open>
  Every operation that reads the clock takes the value of \<open>Date.now()\<close> as \<open>now\<close>;
  the calls within one operation are taken to return the same value.
\<close>

definition addUserMessage ::
  "Conversation \<Rightarrow> nat \<Rightarrow> string \<Rightarrow> string list option \<Rightarrow> Conversation"
where
  "addUserMessage st now content attachedImages =
     (let message = \<lparr>msg_id = ''user-'' @ decimal now, msg_role = User,
                      msg_content = content, msg_timestamp = now,
                      msg_attachedImages = attachedImages, msg_codeSnapshot = None,
                      msg_metadata = None, msg_errorType = None, msg_failedEdit = None\<rparr>
      in st\<lparr>messages := messages st @ [message]\<rparr>)"

definition addAssistantMessage ::
  "Conversation \<Rightarrow> nat \<Rightarrow> string \<Rightarrow> string \<Rightarrow> AssistantMetadata option \<Rightarrow> Conversation"
where
  "addAssistantMessage st now content codeSnapshot metadata =
     (let message = \<lparr>msg_id = ''assistant-'' @ decimal now, msg_role = Assistant,
                      msg_content = content, msg_timestamp = now,
                      msg_attachedImages = None, msg_codeSnapshot = Some codeSnapshot,
                      msg_metadata = metadata, msg_errorType = None,
                      msg_failedEdit = None\<rparr>
      in st\<lparr>lastAiCode := codeSnapshot,
             messages := messages st @ [message],
             hasManualEdits := False,
             lastGenerationTimestamp := Some now\<rparr>)"

definition addErrorMessage ::
  "Conversation \<Rightarrow> nat \<Rightarrow> string \<Rightarrow> ErrorType \<Rightarrow> EditOperation option \<Rightarrow> Conversation"
where
  "addErrorMessage st now content errorType failed =
     (let message = \<lparr>msg_id = ''error-'' @ decimal now, msg_role = ErrorRole,
                      msg_content = content, msg_timestamp = now,
                      msg_attachedImages = None, msg_codeSnapshot = None,
                      msg_metadata = None, msg_errorType = Some errorType,
                      msg_failedEdit = failed\<rparr>
      in st\<lparr>messages := messages st @ [message]\<rparr>)"

definition markManualEdit :: "Conversation \<Rightarrow> string \<Rightarrow> Conversation" where
  "markManualEdit st currentCode =
     (if currentCode \<noteq> lastAiCode st \<and> lastAiCode st \<noteq> []
      then st\<lparr>hasManualEdits := True\<rparr> else st)"

definition clearConversation :: "Conversation \<Rightarrow> Conversation" where
  "clearConversation st =
     \<lparr>messages = [], hasManualEdits = False, lastGenerationTimestamp = None,
      pendingMessage = None, lastAiCode = []\<rparr>"

text \<open>
  \<open>initializeFromSnapshots\<close>: a user message for every snapshot with a non-empty
  prompt, then an assistant message for every snapshot. The ref is written only when
  there is a last snapshot.
\<close>

definition snapshot_messages :: "CodeSnapshot \<Rightarrow> ConversationMessage list" where
  "snapshot_messages snapshot =
     (case snap_prompt snapshot of
        None \<Rightarrow> []
      | Some p \<Rightarrow>
          if p = [] then []
          else [\<lparr>msg_id = ''user-'' @ snap_id snapshot, msg_role = User,
                  msg_content = p, msg_timestamp = snap_created_at snapshot,
                  msg_attachedImages = None, msg_codeSnapshot = None,
                  msg_metadata = None, msg_errorType = None, msg_failedEdit = None\<rparr>])
     @ [\<lparr>msg_id = ''assistant-'' @ snap_id snapshot, msg_role = Assistant,
          msg_content =
            (case snap_summary snapshot of
               None \<Rightarrow> ''Generated animation''
             | Some t \<Rightarrow> if t = [] then ''Generated animation'' else t),
          msg_timestamp = snap_created_at snapshot,
          msg_attachedImages = None, msg_codeSnapshot = Some (snap_code snapshot),
          msg_metadata =
            Some \<lparr>meta_skills = (case snap_skills snapshot of None \<Rightarrow> [] | Some ks \<Rightarrow> ks),
                  meta_editType = full_replacement, meta_edits = None\<rparr>,
          msg_errorType = None, msg_failedEdit = None\<rparr>]"

definition initializeFromSnapshots ::
  "Conversation \<Rightarrow> nat \<Rightarrow> CodeSnapshot list \<Rightarrow> Conversation"
where
  "initializeFromSnapshots st now snaps =
     \<lparr>messages = concat (map snapshot_messages snaps),
      hasManualEdits = False,
      lastGenerationTimestamp = Some now,
      pendingMessage = None,
      lastAiCode = (if snaps = [] then lastAiCode st else snap_code (last snaps))\<rparr>"

definition setPendingMessage :: "Conversation \<Rightarrow> nat \<Rightarrow> string list option \<Rightarrow> Conversation"
where
  "setPendingMessage st now skills =
     st\<lparr>pendingMessage := Some \<lparr>pending_skills = skills, pending_startedAt = now\<rparr>\<rparr>"

definition clearPendingMessage :: "Conversation \<Rightarrow> Conversation" where
  "clearPendingMessage st = st\<lparr>pendingMessage := None\<rparr>"

record ConversationContextMessage =
  ctx_role :: Role
  ctx_content :: string
  ctx_attachedImages :: "string list option"

definition getFullContext :: "ConversationMessage list \<Rightarrow> ConversationContextMessage list"
where
  "getFullContext msgs =
     map (\<lambda>m. \<lparr>ctx_role = msg_role m,
               ctx_content = (if msg_role m = User then msg_content m
                              else ''[Generated Code]''),
               ctx_attachedImages =
                 (case msg_attachedImages m of
                    None \<Rightarrow> None
                  | Some imgs \<Rightarrow>
                      if msg_role m = User \<and> length imgs > 0 then Some imgs else None)\<rparr>)
       (filter (\<lambda>m. msg_role m = User \<or> msg_role m = Assistant) msgs)"

text \<open>The operations of the ledger that change its state.\<close>

datatype ConversationOp =
  AddUser nat string "string list option"
| AddAssistant nat string string "AssistantMetadata option"
| AddError nat string ErrorType "EditOperation option"
| MarkManualEdit string
| ClearConversation
| InitializeFromSnapshots nat "CodeSnapshot list"
| SetPending nat "string list option"
| ClearPending

fun conversation_step :: "Conversation \<Rightarrow> ConversationOp \<Rightarrow> Conversation" where
  "conversation_step st (AddUser now content imgs) = addUserMessage st now content imgs"
| "conversation_step st (AddAssistant now content code meta) =
     addAssistantMessage st now content code meta"
| "conversation_step st (AddError now content ty failed) =
     addErrorMessage st now content ty failed"
| "conversation_step st (MarkManualEdit code) = markManualEdit st code"
| "conversation_step st ClearConversation = clearConversation st"
| "conversation_step st (InitializeFromSnapshots now snaps) =
     initializeFromSnapshots st now snaps"
| "conversation_step st (SetPending now skills) = setPendingMessage st now skills"
| "conversation_step st ClearPending = clearPendingMessage st"

definition conversation_run :: "Conversation \<Rightarrow> ConversationOp list \<Rightarrow> Conversation" where
  "conversation_run st ops = foldl conversation_step st ops"

text \<open>
  An operation records an assistant message when it appends one to the ledger:
  \<open>addAssistantMessage\<close>, and \<open>initializeFromSnapshots\<close> with at least one snapshot.
\<close>

fun records_assistant :: "ConversationOp \<Rightarrow> bool" where
  "records_assistant (AddAssistant now content code meta) = True"
| "records_assistant (InitializeFromSnapshots now snaps) = (snaps \<noteq> [])"
| "records_assistant other = False"

section \<open>EditDecisionProtocol: the follow-up branch of \<open>POST\<close>\<close>

text \<open>
  The object that \<open>generateObject\<close> returns under \<open>FollowUpResponseSchema\<close>: \<open>type\<close> is
  one of two literals, \<open>edits\<close> and \<open>code\<close> are nullable. An edit of the schema has no
  line number (\<open>mk_edit\<close>).
\<close>

datatype DecisionType = Edit | Full

record FollowUpResponse =
  resp_type :: DecisionType
  resp_summary :: string
  resp_edits :: "EditOperation list option"
  resp_code :: "string option"

record GenerateMetadata =
  gen_skills :: "string list"
  gen_editType :: EditType
  gen_edits :: "EditOperation list option"
  gen_model :: string

record GenerateResponse =
  gen_code :: string
  gen_summary :: string
  gen_metadata :: GenerateMetadata

record ErrorBody =
  body_error :: "string option"
  body_type :: string
  body_failedEdit :: "EditOperation option"

text \<open>An HTTP response: the status and the JSON body.\<close>

datatype HttpResponse =
  ErrorResponse nat ErrorBody
| OkResponse nat GenerateResponse

text \<open>
  The body sent when the decision lacks its payload. Its wire \<open>type\<close> is \<open>edit_failed\<close>,
  as for a failed patch, but it carries no failed edit.
\<close>

definition invalidResponse :: HttpResponse where
  "invalidResponse =
     ErrorResponse 400
       \<lparr>body_error = Some ''Invalid AI response: missing required fields'',
        body_type = ''edit_failed'', body_failedEdit = None\<rparr>"

text \<open>
  Lines 953 to 1008 of the handler, from the decision \<open>response\<close> to the HTTP response.
  A JavaScript condition holds for every array, also the empty one, and for every string
  but the empty one; \<open>null\<close> never satisfies it.
\<close>

definition followUpDecision ::
  "string \<Rightarrow> FollowUpResponse \<Rightarrow> string list \<Rightarrow> string \<Rightarrow> HttpResponse"
where
  "followUpDecision currentCode response detectedSkills modelName =
     (if resp_type response = Edit \<and> resp_edits response \<noteq> None then
        let r = applyEdits currentCode (the (resp_edits response)) in
        if \<not> success r then
          ErrorResponse 400
            \<lparr>body_error = map_option error_text (error r),
             body_type = ''edit_failed'', body_failedEdit = failedEdit r\<rparr>
        else
          OkResponse 200
            \<lparr>gen_code = result r, gen_summary = resp_summary response,
             gen_metadata = \<lparr>gen_skills = detectedSkills, gen_editType = tool_edit,
                             gen_edits = enrichedEdits r, gen_model = modelName\<rparr>\<rparr>
      else if resp_type response = Full \<and> resp_code response \<noteq> None
              \<and> resp_code response \<noteq> Some [] then
        OkResponse 200
          \<lparr>gen_code = the (resp_code response), gen_summary = resp_summary response,
           gen_metadata = \<lparr>gen_skills = detectedSkills, gen_editType = full_replacement,
                           gen_edits = None, gen_model = modelName\<rparr>\<rparr>
      else invalidResponse)"

section \<open>SelfCorrectionLoop\<close>









section \<open>Occurrences of a string, classes of operations, concrete inputs\<close>

text \<open>
  Following the spec's words "oldString occurs in the buffer": the offsets at which
  \<open>pat\<close> occurs in \<open>s\<close>, in ascending order. Occurrences may overlap.
\<close>

definition occurrences :: "string \<Rightarrow> string \<Rightarrow> nat list" where
  "occurrences s pat = filter (\<lambda>i. startsWith (drop i s) pat) [0..<Suc (length s)]"

definition occ_set :: "string \<Rightarrow> string \<Rightarrow> nat set" where
  "occ_set s pat = {i. i \<le> length s \<and> startsWith (drop i s) pat}"

text \<open>Classes of operations of the store that the lemmas below single out.\<close>

fun successful_save :: "HistoryOp \<Rightarrow> bool" where
  "successful_save (Save c p s k (Inserted i t)) = True"
| "successful_save other = False"

fun empty_load :: "HistoryOp \<Rightarrow> bool" where
  "empty_load (Load (Some [])) = True"
| "empty_load other = False"

text \<open>The cursor is at the last snapshot and the sequence numbers are \<open>0, 1, ...\<close>.\<close>

definition at_end_dense :: "History \<Rightarrow> bool" where
  "at_end_dense h =
     (currentIndex h = int (length (snapshots h)) - 1
      \<and> map snap_sequence_number (snapshots h) = map int [0..<length (snapshots h)])"

definition snapshot0 :: CodeSnapshot where
  "snapshot0 =
     \<lparr>snap_id = ''id0'', snap_session_id = ''s'', snap_code = ''code0'',
      snap_prompt = Some ''p0'', snap_summary = Some ''m0'', snap_skills = Some [],
      snap_sequence_number = 0, snap_created_at = 0\<rparr>"

definition snapshot1 :: CodeSnapshot where
  "snapshot1 =
     \<lparr>snap_id = ''id1'', snap_session_id = ''s'', snap_code = ''code1'',
      snap_prompt = Some ''p1'', snap_summary = Some ''m1'', snap_skills = Some [],
      snap_sequence_number = 1, snap_created_at = 1\<rparr>"

definition history_one :: History where
  "history_one = \<lparr>snapshots = [snapshot0], currentIndex = 0, isLoaded = True\<rparr>"

definition history_two :: History where
  "history_two = \<lparr>snapshots = [snapshot0, snapshot1], currentIndex = 1, isLoaded = True\<rparr>"

definition supabase_two :: SupabaseHistory where
  "supabase_two =
     \<lparr>snapshots = [snapshot0, snapshot1], currentIndex = 1, isLoaded = True,
      sessionId = Some ''s''\<rparr>"

definition example_messages :: "ConversationMessage list" where
  "example_messages =
     messages
       (conversation_run initialConversation
          [AddUser 1 ''make it blue'' None,
           AddAssistant 2 ''Changed the colour'' ''const c = 1;'' None,
           AddError 3 ''Edit 1 failed'' edit_failed None])"

section \<open>PatchEngine: verification\<close>

subsection \<open>Searching, splitting and literal replacement\<close>

text \<open>
  \<open>indexOf\<close> returns the least offset at which the pattern occurs; \<open>split\<close> never
  counts more matches than there are occurrences; a replacement template without a
  dollar sign is inserted as it is; and the line number is one more than the number of
  line feeds before the match.
\<close>

lemma getSubstitution_literal:
  "CHR ''$'' \<notin> set t \<Longrightarrow> getSubstitution m s p t = t"
  by (induction m s p t rule: getSubstitution.induct) auto

lemma replace_literal:
  "indexOf s old = Some j \<Longrightarrow> CHR ''$'' \<notin> set new
   \<Longrightarrow> replace s old new = take j s @ new @ drop (j + length old) s"
  by (simp add: replace_def getSubstitution_literal)

lemma indexOf_Some_startsWith:
  "indexOf s pat = Some j \<Longrightarrow> startsWith (drop j s) pat"
proof (induction s arbitrary: j)
  case Nil
  then show ?case by (simp add: startsWith_def split: if_splits)
next
  case (Cons c s)
  then show ?case by (auto split: if_splits)
qed

lemma indexOf_Some_least:
  "indexOf s pat = Some j \<Longrightarrow> i < j \<Longrightarrow> \<not> startsWith (drop i s) pat"
proof (induction s arbitrary: i j)
  case Nil
  then show ?case by (simp split: if_splits)
next
  case (Cons c s)
  show ?case
  proof (cases "startsWith (c # s) pat")
    case True
    with Cons.prems show ?thesis by simp
  next
    case False
    with Cons.prems obtain k where k: "indexOf s pat = Some k" "j = Suc k" by auto
    show ?thesis
    proof (cases i)
      case 0
      with False show ?thesis by simp
    next
      case (Suc i')
      with Cons.prems(2) k(2) have "i' < k" by simp
      from Cons.IH [OF k(1) this] Suc show ?thesis by simp
    qed
  qed
qed

lemma indexOf_None:
  "indexOf s pat = None \<Longrightarrow> i \<le> length s \<Longrightarrow> \<not> startsWith (drop i s) pat"
proof (induction s arbitrary: i)
  case Nil
  then show ?case by (simp add: startsWith_def split: if_splits)
next
  case (Cons c s)
  then show ?case by (cases i) (auto split: if_splits)
qed

lemma set_occurrences: "set (occurrences s pat) = occ_set s pat"
  by (auto simp: occurrences_def occ_set_def less_Suc_eq_le simp del: upt_Suc)

lemma length_occurrences: "length (occurrences s pat) = card (occ_set s pat)"
proof -
  have "distinct (occurrences s pat)" by (simp add: occurrences_def del: upt_Suc)
  then show ?thesis by (metis distinct_card set_occurrences)
qed

lemma finite_occ_set: "finite (occ_set s pat)"
  by (metis List.finite_set set_occurrences)

lemma occurrences_Nil_iff: "occurrences s pat = [] \<longleftrightarrow> \<not> includes_str s pat"
proof
  assume e: "occurrences s pat = []"
  show "\<not> includes_str s pat"
  proof
    assume "includes_str s pat"
    then obtain j where j: "indexOf s pat = Some j" by (auto simp: includes_str_def)
    from indexOf_Some_startsWith [OF j] indexOf_bound [OF j]
    have "j \<in> occ_set s pat" by (simp add: occ_set_def)
    with e show False by (metis empty_iff empty_set set_occurrences)
  qed
next
  assume "\<not> includes_str s pat"
  then have "indexOf s pat = None" by (simp add: includes_str_def)
  then have "occ_set s pat = {}" by (auto simp: occ_set_def dest: indexOf_None)
  then show "occurrences s pat = []" by (metis set_empty set_occurrences)
qed

lemma hd_occurrences:
  "occurrences s pat = j # js \<Longrightarrow> indexOf s pat = Some j"
proof -
  assume a: "occurrences s pat = j # js"
  then have "includes_str s pat" using occurrences_Nil_iff [of s pat] by simp
  then obtain k where k: "indexOf s pat = Some k" by (auto simp: includes_str_def)
  have srt: "sorted (occurrences s pat)"
    unfolding occurrences_def by (rule sorted_wrt_filter) (rule sorted_upt)
  have jin: "j \<in> occ_set s pat" using a by (metis list.set_intros(1) set_occurrences)
  from indexOf_Some_startsWith [OF k] indexOf_bound [OF k]
  have kin: "k \<in> set (occurrences s pat)" by (simp add: set_occurrences occ_set_def)
  with a srt have "j \<le> k" by auto
  moreover have "\<not> j < k" using indexOf_Some_least [OF k] jin by (auto simp: occ_set_def)
  ultimately show ?thesis using k by simp
qed

lemma split_loop_count:
  "pat \<noteq> [] \<Longrightarrow> length (split_loop s pat) \<le> Suc (card (occ_set s pat))"
proof (induction s pat rule: split_loop.induct)
  case (1 s sep)
  show ?case
  proof (cases "indexOf s sep")
    case None
    then show ?thesis using "1.prems" by (simp add: split_loop.simps [of s sep])
  next
    case (Some j)
    let ?k = "j + length sep"
    let ?rest = "drop ?k s"
    have IH: "length (split_loop ?rest sep) \<le> Suc (card (occ_set ?rest sep))"
      using "1.IH" [OF "1.prems" Some] "1.prems" by simp
    have bound: "?k \<le> length s" using indexOf_bound [OF Some] .
    have jin: "j \<in> occ_set s sep"
      using indexOf_Some_startsWith [OF Some] bound by (simp add: occ_set_def)
    have sub: "(\<lambda>i. i + ?k) ` occ_set ?rest sep \<subseteq> occ_set s sep"
      using bound by (auto simp: occ_set_def add.commute)
    have notin: "j \<notin> (\<lambda>i. i + ?k) ` occ_set ?rest sep"
      using "1.prems" by auto
    have inj: "inj_on (\<lambda>i. i + ?k) (occ_set ?rest sep)" by (simp add: inj_on_def)
    have "card (insert j ((\<lambda>i. i + ?k) ` occ_set ?rest sep)) \<le> card (occ_set s sep)"
      using jin sub by (intro card_mono finite_occ_set) auto
    moreover have "card (insert j ((\<lambda>i. i + ?k) ` occ_set ?rest sep))
        = Suc (card (occ_set ?rest sep))"
      using notin inj finite_occ_set [of ?rest sep] by (simp add: card_image)
    ultimately have "Suc (card (occ_set ?rest sep)) \<le> card (occ_set s sep)" by simp
    with IH show ?thesis using "1.prems" Some by (simp add: split_loop.simps [of s sep])
  qed
qed

lemma split_count:
  "int (length (split s pat)) - 1 \<le> int (length (occurrences s pat))"
proof (cases "pat = []")
  case True
  then show ?thesis by (simp add: split_def occurrences_def startsWith_def del: upt_Suc)
next
  case False
  then show ?thesis
    using split_loop_count [OF False, of s]
    by (auto simp: split_def length_occurrences)
qed

lemma split_loop_single_Cons:
  "length (split_loop (x # xs) [c])
     = (if x = c then Suc (length (split_loop xs [c])) else length (split_loop xs [c]))"
proof (cases "x = c")
  case True
  then show ?thesis
    by (simp add: split_loop.simps [of "c # xs"] startsWith_def)
next
  case False
  then show ?thesis
    by (simp add: split_loop.simps [of "x # xs"] split_loop.simps [of xs] startsWith_def
        split: option.splits)
qed

lemma split_loop_single_count:
  "length (split_loop t [c]) = Suc (count_list t c)"
proof (induction t)
  case Nil
  then show ?case by (simp add: split_loop.simps [of "[]"])
next
  case (Cons x xs)
  then show ?case by (simp add: split_loop_single_Cons)
qed

lemma getLineNumber_count:
  "indexOf code pat = Some j
   \<Longrightarrow> getLineNumber code pat = int (count_list (take j code) (CHR 0x0A)) + 1"
  by (simp add: getLineNumber_def split_def split_loop_single_count)

subsection \<open>The edit loop\<close>

text \<open>
  For a single edit whose \<open>old_string\<close> occurs exactly once and whose \<open>new_string\<close> has
  no dollar sign, the result is the buffer with that occurrence replaced. A failing
  call returns the input code, whatever was applied before; the first edit whose
  \<open>old_string\<close> is absent from the current buffer fails as not found, with its 1-based
  number; and an edit for which \<open>split\<close> counts more than one match fails as ambiguous,
  with that count.
\<close>

lemma applyEdits_unique_literal:
  assumes occ: "occurrences code old = [j]" and lit: "CHR ''$'' \<notin> set new"
  shows "applyEdits code [mk_edit d old new] =
     \<lparr>success = True, result = take j code @ new @ drop (j + length old) code,
      error = None,
      enrichedEdits = Some [\<lparr>description = d, old_string = old, new_string = new,
                              lineNumber = Some (getLineNumber code old)\<rparr>],
      failedEdit = None\<rparr>"
proof -
  have idx: "indexOf code old = Some j" using occ by (rule hd_occurrences)
  then have inc: "includes_str code old" by (simp add: includes_str_def)
  have "int (length (split code old)) - 1 \<le> 1"
    using split_count [of code old] occ by simp
  then have m: "\<not> int (length (split code old)) - 1 > 1" by simp
  show ?thesis
    using inc m by (simp add: applyEdits_def mk_edit_def Let_def replace_literal [OF idx lit])
qed

lemma applyEdits_loop_failure:
  "\<not> success (applyEdits_loop code i edits cur enr)
   \<Longrightarrow> result (applyEdits_loop code i edits cur enr) = code
       \<and> enrichedEdits (applyEdits_loop code i edits cur enr) = None
       \<and> (\<exists>e \<in> set edits. failedEdit (applyEdits_loop code i edits cur enr) = Some e)"
proof (induction edits arbitrary: i cur enr)
  case Nil
  then show ?case by simp
next
  case (Cons edit rest)
  show ?case
  proof (cases "includes_str cur (old_string edit)
      \<and> \<not> int (length (split cur (old_string edit))) - 1 > 1")
    case True
    with Cons.prems Cons.IH show ?thesis by (auto simp: Let_def)
  next
    case False
    then show ?thesis by (auto simp: Let_def)
  qed
qed

lemma applyEdits_loop_success:
  "success (applyEdits_loop code i edits cur enr)
   \<Longrightarrow> \<exists>es. enrichedEdits (applyEdits_loop code i edits cur enr) = Some (enr @ es)
       \<and> map old_string es = map old_string edits
       \<and> map new_string es = map new_string edits
       \<and> map description es = map description edits
       \<and> error (applyEdits_loop code i edits cur enr) = None"
proof (induction edits arbitrary: i cur enr)
  case Nil
  then show ?case by simp
next
  case (Cons edit rest)
  let ?e = "\<lparr>description = description edit, old_string = old_string edit,
      new_string = new_string edit,
      lineNumber = Some (getLineNumber cur (old_string edit))\<rparr>"
  let ?cur = "replace cur (old_string edit) (new_string edit)"
  from Cons.prems have ok: "includes_str cur (old_string edit)"
      "\<not> int (length (split cur (old_string edit))) - 1 > 1"
    by (auto simp: Let_def split: if_splits)
  then have eq: "applyEdits_loop code i (edit # rest) cur enr
      = applyEdits_loop code (i + 1) rest ?cur (enr @ [?e])"
    by (simp add: Let_def)
  with Cons.prems have "success (applyEdits_loop code (i + 1) rest ?cur (enr @ [?e]))"
    by simp
  from Cons.IH [OF this] obtain es where
    es: "enrichedEdits (applyEdits_loop code (i + 1) rest ?cur (enr @ [?e]))
           = Some ((enr @ [?e]) @ es)"
      "map old_string es = map old_string rest"
      "map new_string es = map new_string rest"
      "map description es = map description rest"
      "error (applyEdits_loop code (i + 1) rest ?cur (enr @ [?e])) = None"
    by blast
  show ?case
    unfolding eq using es by (intro exI [of _ "?e # es"]) simp
qed

lemma applyEdits_loop_append:
  "applyEdits_loop code i (pre @ rest) cur enr =
     (if success (applyEdits_loop code i pre cur enr)
      then applyEdits_loop code (i + length pre) rest
             (result (applyEdits_loop code i pre cur enr))
             (the (enrichedEdits (applyEdits_loop code i pre cur enr)))
      else applyEdits_loop code i pre cur enr)"
proof (induction pre arbitrary: i cur enr)
  case Nil
  then show ?case by simp
next
  case (Cons edit pre)
  show ?case
  proof (cases "includes_str cur (old_string edit)
      \<and> \<not> int (length (split cur (old_string edit))) - 1 > 1")
    case True
    then show ?thesis using Cons.IH by (simp add: Let_def)
  next
    case False
    then show ?thesis by (auto simp: Let_def)
  qed
qed

lemma applyEdits_not_found:
  assumes "success (applyEdits code pre)"
    and "occurrences (result (applyEdits code pre)) (old_string e) = []"
  shows "applyEdits code (pre @ e # post) =
     \<lparr>success = False, result = code, error = Some (NotFound (length pre + 1)),
      enrichedEdits = None, failedEdit = Some e\<rparr>"
proof -
  have "\<not> includes_str (result (applyEdits code pre)) (old_string e)"
    using assms(2) by (simp add: occurrences_Nil_iff)
  then show ?thesis
    using assms(1) by (simp add: applyEdits_def applyEdits_loop_append)
qed

lemma applyEdits_ambiguous:
  assumes "success (applyEdits code pre)"
    and "int (length (split (result (applyEdits code pre)) (old_string e))) - 1 > 1"
    and "includes_str (result (applyEdits code pre)) (old_string e)"
  shows "applyEdits code (pre @ e # post) =
     \<lparr>success = False, result = code,
      error = Some (Ambiguous (length pre + 1)
                 (int (length (split (result (applyEdits code pre)) (old_string e))) - 1)),
      enrichedEdits = None, failedEdit = Some e\<rparr>"
  using assms by (simp add: applyEdits_def applyEdits_loop_append Let_def)

subsection \<open>The claims\<close>

text \<open>
  C1. The claim: for a single edit whose \<open>oldString\<close> occurs exactly once, \<open>applyEdits\<close>
  succeeds and the result is the buffer with that occurrence replaced by \<open>newString\<close>,
  for all values of \<open>newString\<close>. The code hands \<open>new_string\<close> to \<open>String.replace\<close> as a
  replacement template: in the buffer \<open>total = 0\<close> the digit occurs once, at offset 8,
  and replacing it by the two dollar signs \<open>$$\<close> yields \<open>total = $\<close>, with one dollar
  sign only.
\<close>

theorem applyEdits_expands_dollar_template:
  "occurrences ''total = 0'' ''0'' = [8]
   \<and> applyEdits ''total = 0'' [mk_edit ''digit'' ''0'' ''$$''] =
       \<lparr>success = True, result = ''total = $'', error = None,
        enrichedEdits = Some [\<lparr>description = ''digit'', old_string = ''0'',
                                new_string = ''$$'', lineNumber = Some 1\<rparr>],
        failedEdit = None\<rparr>"
  by code_simp

text \<open>
  C3. The claim: an \<open>oldString\<close> that occurs more than once makes \<open>applyEdits\<close> fail as
  ambiguous. The code counts the pieces of \<open>split\<close>, which skips a match that overlaps
  the one before: \<open>aa\<close> occurs in \<open>aaa\<close> at the offsets 0 and 1, one match is counted,
  and the edit is applied at offset 0.
\<close>

theorem applyEdits_accepts_overlapping_matches:
  "occurrences ''aaa'' ''aa'' = [0, 1]
   \<and> applyEdits ''aaa'' [mk_edit ''pair'' ''aa'' ''b''] =
       \<lparr>success = True, result = ''ba'', error = None,
        enrichedEdits = Some [\<lparr>description = ''pair'', old_string = ''aa'',
                                new_string = ''b'', lineNumber = Some 1\<rparr>],
        failedEdit = None\<rparr>"
  by code_simp

section \<open>EditDecisionProtocol: verification\<close>

text \<open>
  C2, as stated, at a concrete input: an edit decision whose list of edits is empty is
  not rejected. The empty array passes the test \<open>response.edits\<close>, \<open>applyEdits\<close> has
  nothing to do, and the handler answers 200 with the current code.
\<close>

theorem followUpDecision_empty_edits_counterexample:
  "followUpDecision ''x = 1''
     \<lparr>resp_type = Edit, resp_summary = ''nothing'', resp_edits = Some [], resp_code = None\<rparr>
     [] ''gpt''
   = OkResponse 200
       \<lparr>gen_code = ''x = 1'', gen_summary = ''nothing'',
        gen_metadata = \<lparr>gen_skills = [], gen_editType = tool_edit,
                        gen_edits = Some [], gen_model = ''gpt''\<rparr>\<rparr>"
  by (simp add: followUpDecision_def applyEdits_def)

text \<open>
  C2, amended: a decision of kind edit whose list of edits is missing (\<open>null\<close>), and a
  decision of kind full whose code is missing or the empty string, are answered with
  the invalid-response error; no edit is applied and no code is returned.
\<close>

theorem followUpDecision_missing_payload_invalid:
  "followUpDecision cur
     \<lparr>resp_type = Edit, resp_summary = sm, resp_edits = None, resp_code = c\<rparr> sk md
     = invalidResponse
   \<and> followUpDecision cur
       \<lparr>resp_type = Full, resp_summary = sm, resp_edits = e, resp_code = None\<rparr> sk md
     = invalidResponse
   \<and> followUpDecision cur
       \<lparr>resp_type = Full, resp_summary = sm, resp_edits = e, resp_code = Some []\<rparr> sk md
     = invalidResponse"
  by (simp add: followUpDecision_def)

section \<open>SnapshotStore: verification\<close>

lemma slice_prefix: "0 \<le> e \<Longrightarrow> slice xs 0 e = take (nat e) xs"
  by (auto simp: slice_def Let_def min_def)

text \<open>
  A successful save establishes the cursor invariant, \<open>undo\<close> and \<open>redo\<close> preserve it,
  and so does every load but the one that returns no row. From the initial state,
  saves alone number the snapshots \<open>0, 1, ..., N - 1\<close> and leave the cursor on the last.
\<close>

lemma save_establishes_cursor_invariant:
  "cursor_invariant (fst (saveSnapshot sid h c p s k (Inserted i t)))"
  by (simp add: saveSnapshot_def cursor_invariant_def Let_def)

lemma undo_preserves_cursor_invariant:
  "cursor_invariant h \<Longrightarrow> cursor_invariant (fst (undo h))"
  by (auto simp: undo_def cursor_invariant_def Let_def)

lemma redo_preserves_cursor_invariant:
  "cursor_invariant h \<Longrightarrow> cursor_invariant (fst (redo h))"
  by (auto simp: redo_def cursor_invariant_def Let_def)

lemma load_preserves_cursor_invariant:
  "cursor_invariant h \<Longrightarrow> reply \<noteq> Some [] \<Longrightarrow> cursor_invariant (loadSnapshots h reply)"
  by (auto simp: loadSnapshots_def cursor_invariant_def Let_def split: option.splits)

lemma step_preserves_cursor_invariant:
  assumes "cursor_invariant h" and "\<not> empty_load op"
  shows "cursor_invariant (history_step sid h op)"
proof (cases op)
  case (Load reply)
  with assms(2) have "reply \<noteq> Some []" by auto
  with Load assms(1) show ?thesis by (simp add: load_preserves_cursor_invariant)
next
  case (Save c p s k reply)
  then show ?thesis
    using assms(1)
    by (cases reply) (simp_all add: save_establishes_cursor_invariant, simp add: saveSnapshot_def Let_def)
next
  case Undo
  with assms(1) show ?thesis by (simp add: undo_preserves_cursor_invariant)
next
  case Redo
  with assms(1) show ?thesis by (simp add: redo_preserves_cursor_invariant)
qed

lemma run_preserves_cursor_invariant:
  "cursor_invariant h \<Longrightarrow> \<forall>op \<in> set ops. \<not> empty_load op
   \<Longrightarrow> cursor_invariant (history_run sid h ops)"
proof (induction ops arbitrary: h)
  case Nil
  then show ?case by (simp add: history_run_def)
next
  case (Cons op ops)
  from Cons.prems have "cursor_invariant (history_step sid h op)"
    by (simp add: step_preserves_cursor_invariant)
  from Cons.IH [OF this] Cons.prems(2) show ?case by (simp add: history_run_def)
qed

lemma save_at_end:
  assumes "at_end_dense h"
  shows "at_end_dense (fst (saveSnapshot sid h c p s k (Inserted i t)))
    \<and> length (snapshots (fst (saveSnapshot sid h c p s k (Inserted i t))))
        = Suc (length (snapshots h))"
proof -
  have "slice (snapshots h) 0 (currentIndex h + 1) = snapshots h"
    using assms by (simp add: at_end_dense_def slice_def Let_def)
  then show ?thesis
    using assms by (simp add: saveSnapshot_def at_end_dense_def Let_def)
qed

lemma saves_at_end:
  "at_end_dense h \<Longrightarrow> \<forall>op \<in> set ops. successful_save op
   \<Longrightarrow> at_end_dense (history_run sid h ops)
       \<and> length (snapshots (history_run sid h ops)) = length (snapshots h) + length ops"
proof (induction ops arbitrary: h)
  case Nil
  then show ?case by (simp add: history_run_def)
next
  case (Cons op ops)
  from Cons.prems(2) obtain c p s k i t where op: "op = Save c p s k (Inserted i t)"
    by (cases op rule: successful_save.cases) auto
  from save_at_end [OF Cons.prems(1), of sid c p s k i t] op
  have st: "at_end_dense (history_step sid h op)"
    "length (snapshots (history_step sid h op)) = Suc (length (snapshots h))"
    by simp_all
  from Cons.IH [OF st(1)] Cons.prems(2) st(2)
  show ?case by (simp add: history_run_def)
qed

lemma saves_dense:
  assumes "\<forall>op \<in> set ops. successful_save op"
  shows "map snap_sequence_number (snapshots (history_run sid initialHistory ops))
           = map int [0..<length ops]
     \<and> currentIndex (history_run sid initialHistory ops) = int (length ops) - 1
     \<and> canUndo (history_run sid initialHistory ops) = (length ops > 1)
     \<and> \<not> canRedo (history_run sid initialHistory ops)"
proof -
  have "at_end_dense initialHistory"
    by (simp add: at_end_dense_def initialHistory_def)
  from saves_at_end [OF this assms, of sid]
  show ?thesis
    by (auto simp: at_end_dense_def initialHistory_def canUndo_def canRedo_def)
qed

text \<open>
  C4, as stated, at a concrete input: with one snapshot and the cursor at 0, \<open>undo\<close>
  does nothing, and the snapshot saved next gets the sequence number 1, not the
  cursor position 0 from before the \<open>undo\<close>.
\<close>

theorem undo_noop_then_save_counterexample:
  "undo history_one = (history_one, Inr None)
   \<and> currentIndex history_one = 0
   \<and> map snap_sequence_number
        (snapshots (fst (saveSnapshot ''s'' (fst (undo history_one))
                           ''code1'' ''p1'' ''m1'' [] (Inserted ''id1'' 1))))
      = [0, 1]"
  by (simp add: history_one_def undo_def saveSnapshot_def slice_def Let_def snapshot0_def)

text \<open>
  C4, amended: in a state that satisfies the cursor invariant and whose cursor is above
  0 (so that \<open>undo\<close> moves it), \<open>undo\<close> followed by a \<open>save\<close> whose insert succeeds leaves
  the snapshots below the old cursor followed by the new one; the new snapshot's
  sequence number is the cursor position from before the \<open>undo\<close>, the cursor is back at
  that position, and, the identifiers being distinct and the new one fresh, no snapshot
  from the old cursor on is left in the list. This holds for both history hooks.
\<close>

theorem undo_then_save_truncates:
  assumes "cursor_invariant h" and "0 < currentIndex h"
    and "distinct (map snap_id (snapshots h))"
    and "new_id \<notin> snap_id ` set (snapshots h)"
    and "snapshots g = snapshots h" and "currentIndex g = currentIndex h"
    and "sessionId g = Some sid"
  shows
    "snapshots (fst (saveSnapshot sid (fst (undo h)) c p s k (Inserted new_id t)))
       = take (nat (currentIndex h)) (snapshots h)
           @ [\<lparr>snap_id = new_id, snap_session_id = sid, snap_code = c,
                snap_prompt = Some p, snap_summary = Some s, snap_skills = Some k,
                snap_sequence_number = currentIndex h, snap_created_at = t\<rparr>]
     \<and> currentIndex (fst (saveSnapshot sid (fst (undo h)) c p s k (Inserted new_id t)))
         = currentIndex h
     \<and> (\<forall>x \<in> set (drop (nat (currentIndex h)) (snapshots h)).
           snap_id x \<notin> snap_id `
             set (snapshots (fst (saveSnapshot sid (fst (undo h)) c p s k
                                    (Inserted new_id t)))))
     \<and> snapshots (fst (supabase_saveSnapshot (fst (supabase_undo g)) c p s k cr
                         (Inserted new_id t)))
         = snapshots (fst (saveSnapshot sid (fst (undo h)) c p s k (Inserted new_id t)))
     \<and> currentIndex (fst (supabase_saveSnapshot (fst (supabase_undo g)) c p s k cr
                            (Inserted new_id t)))
         = currentIndex h"
proof -
  let ?i = "currentIndex h"
  let ?xs = "snapshots h"
  have len: "nat ?i < length ?xs"
    using assms(1,2) by (simp add: cursor_invariant_def)
  have u: "fst (undo h) = h\<lparr>currentIndex := ?i - 1\<rparr>"
    using assms(2) by (simp add: undo_def Let_def)
  have v: "fst (supabase_undo g) = g\<lparr>currentIndex := ?i - 1\<rparr>"
    using assms(2,6) by (simp add: supabase_undo_def Let_def)
  have sl: "slice ?xs 0 ?i = take (nat ?i) ?xs"
    using assms(2) by (simp add: slice_prefix)
  have tk: "length (take (nat ?i) ?xs) = nat ?i"
    using len by simp
  have "distinct (map snap_id (take (nat ?i) ?xs) @ map snap_id (drop (nat ?i) ?xs))"
    using assms(3) by (metis append_take_drop_id map_append)
  then have disj:
    "snap_id ` set (take (nat ?i) ?xs) \<inter> snap_id ` set (drop (nat ?i) ?xs) = {}"
    by auto
  have fr: "\<forall>x \<in> set (drop (nat ?i) ?xs). snap_id x \<noteq> new_id"
    using assms(4) by (metis image_eqI in_set_dropD)
  show ?thesis
    using assms(2,5,7) disj fr tk
    by (auto simp: saveSnapshot_def supabase_saveSnapshot_def Let_def u v sl)
qed

theorem undo_then_save_truncates_witness:
  "cursor_invariant history_two \<and> 0 < currentIndex history_two
   \<and> distinct (map snap_id (snapshots history_two))
   \<and> ''id2'' \<notin> snap_id ` set (snapshots history_two)
   \<and> sessionId supabase_two = Some ''s''
   \<and> map snap_id
        (snapshots (fst (saveSnapshot ''s'' (fst (undo history_two))
                           ''code2'' ''p2'' ''m2'' [] (Inserted ''id2'' 2))))
      = [''id0'', ''id2'']
   \<and> map snap_sequence_number
        (snapshots (fst (supabase_saveSnapshot (fst (supabase_undo supabase_two))
                           ''code2'' ''p2'' ''m2'' [] None (Inserted ''id2'' 2))))
      = [0, 1]"
proof -
  have a: "cursor_invariant history_two" and b: "0 < currentIndex history_two"
    by (simp_all add: cursor_invariant_def history_two_def)
  have c: "distinct (map snap_id (snapshots history_two))"
    and d: "''id2'' \<notin> snap_id ` set (snapshots history_two)"
    by (simp_all add: history_two_def snapshot0_def snapshot1_def)
  have e: "snapshots supabase_two = snapshots history_two"
    and f: "currentIndex supabase_two = currentIndex history_two"
    and g: "sessionId supabase_two = Some ''s''"
    by (simp_all add: history_two_def supabase_two_def)
  from undo_then_save_truncates [OF a b c d e f g,
      of "''code2''" "''p2''" "''m2''" "[]" 2 None]
  show ?thesis
    using a b c d g by (simp add: history_two_def snapshot0_def)
qed

text \<open>
  C5. The claim: every sequence of \<open>load\<close>, \<open>save\<close>, \<open>undo\<close> and \<open>redo\<close> keeps
  \<open>-1 \<le> currentIndex < length snapshots\<close>. \<open>loadSnapshots\<close> of \<open>useSessionHistory\<close>
  replaces the list by the rows it received and writes the cursor only when there is a
  row: after one save, a load that returns no row leaves no snapshot and the cursor
  at 0.
\<close>

theorem load_without_rows_keeps_stale_cursor:
  "history_run ''s'' initialHistory
     [Save ''code0'' ''p0'' ''m0'' [] (Inserted ''id0'' 0), Load (Some [])]
     = \<lparr>snapshots = [], currentIndex = 0, isLoaded = True\<rparr>
   \<and> \<not> cursor_invariant
         (history_run ''s'' initialHistory
            [Save ''code0'' ''p0'' ''m0'' [] (Inserted ''id0'' 0), Load (Some [])])"
  by (simp add: history_run_def initialHistory_def saveSnapshot_def loadSnapshots_def
      slice_def cursor_invariant_def Let_def)

text \<open>
  C7. When the insert fails, \<open>saveSnapshot\<close> returns the state it was given and asks
  for no deletion; in \<open>useSupabaseHistory\<close>, where the save may first have created the
  session, the snapshot list and the cursor are the ones from before the save.
\<close>

theorem save_aborts_on_insert_error:
  "saveSnapshot sid h c p s k InsertError = (h, [])
   \<and> snapshots (fst (supabase_saveSnapshot g c p s k cr InsertError)) = snapshots g
   \<and> currentIndex (fst (supabase_saveSnapshot g c p s k cr InsertError)) = currentIndex g
   \<and> snd (supabase_saveSnapshot g c p s k cr InsertError) = []"
  by (simp add: saveSnapshot_def supabase_saveSnapshot_def Let_def split: option.splits)




section \<open>SelfCorrectionLoop: verification\<close>




section \<open>ConversationLedger: verification\<close>

text \<open>
  C8. The context view has no entry of role error, the content of every assistant entry
  is the placeholder \<open>[Generated Code]\<close>, and the view does not depend on the content
  or the code snapshot of any assistant message.
\<close>

theorem getFullContext_redacts:
  "(\<forall>c \<in> set (getFullContext msgs).
      ctx_role c \<noteq> ErrorRole
      \<and> (ctx_role c = Assistant \<longrightarrow> ctx_content c = ''[Generated Code]''))
   \<and> getFullContext
        (map (\<lambda>m. if msg_role m = Assistant
                  then m\<lparr>msg_content := f m, msg_codeSnapshot := g m\<rparr> else m) msgs)
      = getFullContext msgs"
  by (induction msgs) (auto simp: getFullContext_def split: option.splits)

theorem getFullContext_redacts_witness:
  "map ctx_role (getFullContext example_messages) = [User, Assistant]
   \<and> map ctx_content (getFullContext example_messages)
       = [''make it blue'', ''[Generated Code]'']
   \<and> map msg_role example_messages = [User, Assistant, ErrorRole]"
  using getFullContext_redacts [of example_messages]
  by (simp add: example_messages_def conversation_run_def initialConversation_def
      addUserMessage_def addAssistantMessage_def addErrorMessage_def getFullContext_def)

text \<open>
  Operations that record no assistant message keep the tracked code empty and the flag
  clear.
\<close>

lemma no_assistant_keeps_flag_clear:
  "lastAiCode st = [] \<Longrightarrow> \<not> hasManualEdits st
   \<Longrightarrow> \<forall>op \<in> set ops. \<not> records_assistant op
   \<Longrightarrow> lastAiCode (conversation_run st ops) = []
       \<and> \<not> hasManualEdits (conversation_run st ops)"
proof (induction ops arbitrary: st)
  case Nil
  then show ?case by (simp add: conversation_run_def)
next
  case (Cons op ops)
  have step: "lastAiCode (conversation_step st op) = []
      \<and> \<not> hasManualEdits (conversation_step st op)"
    using Cons.prems
    by (cases op)
      (simp_all add: addUserMessage_def addErrorMessage_def markManualEdit_def
        clearConversation_def initializeFromSnapshots_def setPendingMessage_def
        clearPendingMessage_def Let_def)
  from Cons.IH [of "conversation_step st op"] step Cons.prems(3)
  show ?case by (simp add: conversation_run_def)
qed

text \<open>
  C10. From the initial state, a sequence of operations none of which records an
  assistant message leaves \<open>hasManualEdits\<close> false; \<open>markManualEdit\<close> changes nothing,
  whatever code it is given, while the tracked last AI code is empty; and
  \<open>addAssistantMessage\<close> leaves the flag false.
\<close>

theorem hasManualEdits_needs_assistant_message:
  "((\<forall>op \<in> set ops. \<not> records_assistant op)
      \<longrightarrow> \<not> hasManualEdits (conversation_run initialConversation ops))
   \<and> (lastAiCode st = [] \<longrightarrow> markManualEdit st code = st)
   \<and> \<not> hasManualEdits (addAssistantMessage st now content generated meta)"
  using no_assistant_keeps_flag_clear [of initialConversation ops]
  by (simp add: initialConversation_def markManualEdit_def addAssistantMessage_def)

theorem hasManualEdits_needs_assistant_message_witness:
  "\<not> records_assistant (AddUser 1 ''hi'' None)
   \<and> \<not> records_assistant (MarkManualEdit ''typed'')
   \<and> \<not> records_assistant (AddError 2 ''no'' api None)
   \<and> \<not> hasManualEdits
         (conversation_run initialConversation
            [AddUser 1 ''hi'' None, MarkManualEdit ''typed'', AddError 2 ''no'' api None])
   \<and> lastAiCode initialConversation = []
   \<and> markManualEdit initialConversation ''typed'' = initialConversation"
proof -
  have b: "lastAiCode initialConversation = []"
    by (simp add: initialConversation_def)
  from hasManualEdits_needs_assistant_message
    [of "[AddUser 1 ''hi'' None, MarkManualEdit ''typed'', AddError 2 ''no'' api None]"
        initialConversation "''typed''"]
  show ?thesis using b by simp
qed

end
